theory Spec2Isabelle
  imports Main
begin

section \<open>Python strings\<close>

text \<open>
  A Python \<open>str\<close> is modelled as a \<open>string\<close> whose characters are the code points
  below 256. \<open>str.isspace\<close> on that range holds for U+0009 to U+000D, U+001C to U+0020,
  U+0085 and U+00A0.
\<close>

definition isspace :: "char \<Rightarrow> bool" where
  "isspace c \<longleftrightarrow> of_char c \<in> {9, 10, 11, 12, 13, 28, 29, 30, 31, 32, 133, 160 :: nat}"

text \<open>\<open>s.strip()\<close>: whitespace removed from both ends.\<close>

definition strip :: "string \<Rightarrow> string" where
  "strip s = rev (dropWhile isspace (rev (dropWhile isspace s)))"

text \<open>\<open>s.split(sep)\<close> for a one-character separator; \<open>''''.split(sep)\<close> is \<open>['''']\<close>.\<close>

fun split :: "char \<Rightarrow> string \<Rightarrow> string list" where
  "split sep [] = [[]]"
| "split sep (c # cs) =
     (if c = sep then [] # split sep cs
      else (c # hd (split sep cs)) # tl (split sep cs))"

text \<open>\<open>sep.join(parts)\<close>.\<close>

fun join :: "string \<Rightarrow> string list \<Rightarrow> string" where
  "join sep [] = []"
| "join sep [p] = p"
| "join sep (p # ps) = p @ sep @ join sep ps"

definition newline :: char where
  "newline = CHR 0x0A"

definition carriage_return :: char where
  "carriage_return = CHR 0x0D"

text \<open>
  A file opened with \<open>open(path, 'r')\<close> is read with universal newlines: on input
  \<open>\r\n\<close> and a lone \<open>\r\<close> are turned into \<open>\n\<close>.
\<close>

fun universal_newlines :: "string \<Rightarrow> string" where
  "universal_newlines [] = []"
| "universal_newlines [c] = (if c = carriage_return then [newline] else [c])"
| "universal_newlines (c # d # ds) =
     (if c = carriage_return \<and> d = newline then newline # universal_newlines ds
      else if c = carriage_return then newline # universal_newlines (d # ds)
      else c # universal_newlines (d # ds))"

text \<open>
  A text cut after each \<open>\n\<close>: every piece keeps its terminating newline, the last
  piece may lack one.
\<close>

fun lines_keepends :: "string \<Rightarrow> string list" where
  "lines_keepends [] = []"
| "lines_keepends (c # cs) =
     (if c = newline then [c] # lines_keepends cs
      else (case lines_keepends cs of
              [] \<Rightarrow> [[c]]
            | l # ls \<Rightarrow> (c # l) # ls))"

text \<open>
  \<open>for line in file\<close> for a file opened with \<open>open(path, 'r')\<close> whose decoded
  content is \<open>raw\<close>: the lines of the translated text, each with its newline.
\<close>

definition file_lines :: "string \<Rightarrow> string list" where
  "file_lines raw = lines_keepends (universal_newlines raw)"

subsection \<open>Character classes\<close>

definition is_lower :: "char \<Rightarrow> bool" where
  "is_lower c \<longleftrightarrow> 97 \<le> (of_char c :: nat) \<and> (of_char c :: nat) \<le> 122"

definition is_upper :: "char \<Rightarrow> bool" where
  "is_upper c \<longleftrightarrow> 65 \<le> (of_char c :: nat) \<and> (of_char c :: nat) \<le> 90"

definition is_digit :: "char \<Rightarrow> bool" where
  "is_digit c \<longleftrightarrow> 48 \<le> (of_char c :: nat) \<and> (of_char c :: nat) \<le> 57"

subsection \<open>\<open>urllib.parse.quote\<close>\<close>

text \<open>
  \<open>quote(s)\<close> with the default \<open>safe='/'\<close>: the string is encoded as UTF-8; letters,
  digits, \<open>_.-~\<close> and \<open>/\<close> stay, every other byte becomes \<open>%XX\<close> in upper-case hex.
\<close>

definition hexdigit :: "nat \<Rightarrow> char" where
  "hexdigit n = ''0123456789ABCDEF'' ! (n mod 16)"

definition percent :: "nat \<Rightarrow> string" where
  "percent b = [CHR ''%'', hexdigit (b div 16), hexdigit b]"

definition always_safe :: "char \<Rightarrow> bool" where
  "always_safe c \<longleftrightarrow> is_lower c \<or> is_upper c \<or> is_digit c \<or> c \<in> set ''_.-~''"

definition quote_char :: "char \<Rightarrow> string" where
  "quote_char c =
     (let n = (of_char c :: nat) in
      if n < 128 then (if always_safe c \<or> c = CHR ''/'' then [c] else percent n)
      else percent (192 + n div 64) @ percent (128 + n mod 64))"

definition quote :: "string \<Rightarrow> string" where
  "quote s = concat (map quote_char s)"

section \<open>Regular expressions\<close>

text \<open>
  The patterns of Python's \<open>re\<close> that the site list loader uses: character classes,
  concatenation and bounded-below repetition (\<open>r+\<close> is \<open>Rep 1 r\<close>, \<open>r{2,}\<close> is
  \<open>Rep 2 r\<close>). \<open>Never\<close>, \<open>Empty\<close> and \<open>Alt\<close> are there for the derivatives.
\<close>

datatype regex =
    Never
  | Empty
  | Class "char \<Rightarrow> bool"
  | Seq regex regex
  | Alt regex regex
  | Rep nat regex

text \<open>The strings a pattern denotes.\<close>

fun lang :: "regex \<Rightarrow> string set" where
  "lang Never = {}"
| "lang Empty = {[]}"
| "lang (Class p) = {[c] | c. p c}"
| "lang (Seq r1 r2) = {u @ v | u v. u \<in> lang r1 \<and> v \<in> lang r2}"
| "lang (Alt r1 r2) = lang r1 \<union> lang r2"
| "lang (Rep n r) = {concat ws | ws. n \<le> length ws \<and> set ws \<subseteq> lang r}"

text \<open>The executable matcher: derivatives, one character at a time.\<close>

fun nullable :: "regex \<Rightarrow> bool" where
  "nullable Never = False"
| "nullable Empty = True"
| "nullable (Class p) = False"
| "nullable (Seq r1 r2) = (nullable r1 \<and> nullable r2)"
| "nullable (Alt r1 r2) = (nullable r1 \<or> nullable r2)"
| "nullable (Rep n r) = (n = 0 \<or> nullable r)"

fun deriv :: "char \<Rightarrow> regex \<Rightarrow> regex" where
  "deriv c Never = Never"
| "deriv c Empty = Never"
| "deriv c (Class p) = (if p c then Empty else Never)"
| "deriv c (Seq r1 r2) =
     (if nullable r1 then Alt (Seq (deriv c r1) r2) (deriv c r2) else Seq (deriv c r1) r2)"
| "deriv c (Alt r1 r2) = Alt (deriv c r1) (deriv c r2)"
| "deriv c (Rep n r) = Seq (deriv c r) (Rep (n - 1) r)"

fun fullmatch :: "regex \<Rightarrow> string \<Rightarrow> bool" where
  "fullmatch r [] = nullable r"
| "fullmatch r (c # cs) = fullmatch (deriv c r) cs"

text \<open>
  \<open>re.compile('^' + r + '$').match(s)\<close>: \<open>^\<close> anchors at the start; without the
  MULTILINE flag \<open>$\<close> matches at the end of the string and also just before a newline
  that ends the string.
\<close>

definition match_anchored :: "regex \<Rightarrow> string \<Rightarrow> bool" where
  "match_anchored r s \<longleftrightarrow>
     fullmatch r s \<or> (s \<noteq> [] \<and> last s = newline \<and> fullmatch r (butlast s))"

section \<open>Results, requests and the effects of a run\<close>

datatype error =
    FileNotFoundError
  | ValueError
  | RuntimeError
  | RequestException
  | JSONDecodeError

text \<open>An element of the \<open>items\<close> array of a response; a key may be absent.\<close>

record item =
  item_title :: "string option"
  item_link :: "string option"
  item_snippet :: "string option"
  item_displayLink :: "string option"
  item_formattedUrl :: "string option"

text \<open>The dictionary \<open>_perform_search\<close> builds for an item.\<close>

record result =
  title :: string
  link :: string
  snippet :: string
  displayLink :: string
  formattedUrl :: string

text \<open>The same dictionary once \<open>search_books\<close> has added its two keys.\<close>

record tagged_result = result +
  source_site :: string
  search_keywords :: "string list"

text \<open>A GET request: the URL and the \<open>params\<close> dictionary.\<close>

record request =
  url :: string
  key :: string
  cx :: string
  q :: string
  start :: int
  num :: int

text \<open>
  What \<open>requests.get\<close> and \<open>response.json()\<close> can do: \<open>Failed\<close> is a call that
  raises; a response has a status code and a body, which is either not JSON
  (\<open>response.json()\<close> raises) or a JSON object with or without the key \<open>items\<close>.
\<close>

datatype body = Malformed | Json "item list option"

datatype reply = Failed | Response int body

text \<open>The search service: it answers a request in its current state \<open>'w\<close>.\<close>

type_synonym 'w api = "request \<Rightarrow> 'w \<Rightarrow> reply \<times> 'w"

text \<open>The lines the program prints.\<close>

datatype message =
    FoundSites nat  \<comment> \<open>\<open>Found {n} ebook sites.\<close>\<close>
  | Searching string  \<comment> \<open>\<open>Searching on {site}...\<close>\<close>
  | ApiError int  \<comment> \<open>\<open>API Error: {status_code}\<close>\<close>
  | SearchError string error  \<comment> \<open>\<open>Error searching on {site}: {e}\<close>\<close>
  | NoResultsToSave  \<comment> \<open>\<open>No results to save.\<close>\<close>
  | ResultsSaved string  \<comment> \<open>\<open>Results saved to {filename}\<close>\<close>

text \<open>
  A CSV file as \<open>DataFrame.to_csv(index=False)\<close> writes it: one header row of column
  names and one row of cells per dictionary. The keyword list is one cell.
\<close>

datatype cell = Text string | Keywords "string list"

record csv =
  header :: "string list"
  rows :: "cell list list"

text \<open>
  Everything a run does to the outside: the state of the search service, the requests
  sent so far, the lines printed, the seconds slept and the CSV files written.
\<close>

record 'w io =
  world :: 'w
  sent :: "request list"
  console :: "message list"
  slept :: nat
  saved :: "string \<rightharpoonup> csv"

definition print :: "message \<Rightarrow> 'w io \<Rightarrow> 'w io" where
  "print m s = s\<lparr>console := console s @ [m]\<rparr>"

definition sleep :: "nat \<Rightarrow> 'w io \<Rightarrow> 'w io" where
  "sleep n s = s\<lparr>slept := slept s + n\<rparr>"

definition requests_get :: "'w api \<Rightarrow> request \<Rightarrow> 'w io \<Rightarrow> reply \<times> 'w io" where
  "requests_get api params s =
     (case api params (world s) of
        (response, w) \<Rightarrow> (response, s\<lparr>world := w, sent := sent s @ [params]\<rparr>))"

section \<open>The searcher\<close>

record searcher =
  api_key :: string
  search_engine_id :: string
  base_url :: string
  ebook_sites_file :: string
  ebook_sites :: "string list"

section \<open>Site list loader\<close>

definition host_char :: "char \<Rightarrow> bool" where
  "host_char c \<longleftrightarrow> is_lower c \<or> is_upper c \<or> is_digit c \<or> c = CHR ''.'' \<or> c = CHR ''-''"

definition letter :: "char \<Rightarrow> bool" where
  "letter c \<longleftrightarrow> is_lower c \<or> is_upper c"

text \<open>The pattern \<^verbatim>\<open>[a-zA-Z0-9.-]+\.[a-zA-Z]{2,}\<close> between \<open>^\<close> and \<open>$\<close>.\<close>

definition url_pattern :: regex where
  "url_pattern =
     Seq (Rep 1 (Class host_char)) (Seq (Class (\<lambda>c. c = CHR ''.'')) (Rep 2 (Class letter)))"

text \<open>
  \<open>get_ebook_sites\<close>: \<open>fs\<close> gives the text of the files that exist. The result is the
  exception raised or the list returned.
\<close>

definition get_ebook_sites ::
  "(string \<rightharpoonup> string) \<Rightarrow> string \<Rightarrow> 'w io \<Rightarrow> (error + string list) \<times> 'w io" where
  "get_ebook_sites fs sites_file s =
     (case fs sites_file of
        None \<Rightarrow> (Inl FileNotFoundError, s)
      | Some text \<Rightarrow>
          (let sites = map strip
                 (filter (\<lambda>line. match_anchored url_pattern (strip line)) (file_lines text))
           in if sites = [] then (Inl ValueError, s)
              else (Inr sites, print (FoundSites (length sites)) s)))"

text \<open>\<open>EbookSearcher.__init__\<close>.\<close>

definition init ::
  "(string \<rightharpoonup> string) \<Rightarrow> string \<Rightarrow> string \<Rightarrow> 'w io \<Rightarrow> (error + searcher) \<times> 'w io" where
  "init fs the_api_key the_search_engine_id s =
     (case get_ebook_sites fs ''ebook_sites.txt'' s of
        (Inl e, s1) \<Rightarrow> (Inl e, s1)
      | (Inr sites, s1) \<Rightarrow>
          (Inr \<lparr>api_key = the_api_key, search_engine_id = the_search_engine_id,
                base_url = ''https://www.googleapis.com/customsearch/v1'',
                ebook_sites_file = ''ebook_sites.txt'', ebook_sites = sites\<rparr>, s1))"

text \<open>
  The hostname pattern as the specification words it: alphanumerics, dots and hyphens
  (at least one), then a dot, then a suffix of two or more letters. It is compared with
  \<open>url_pattern\<close> below.
\<close>

definition hostname :: "string \<Rightarrow> bool" where
  "hostname s \<longleftrightarrow>
     (\<exists>pre suf. s = pre @ ''.'' @ suf \<and> pre \<noteq> [] \<and> (\<forall>c\<in>set pre. host_char c)
        \<and> 2 \<le> length suf \<and> (\<forall>c\<in>set suf. letter c))"

section \<open>Query builder\<close>

definition dquote :: string where
  \<open>dquote = ''"''\<close>

text \<open>
  \<open>build_query_text\<close> is the value of the local \<open>query\<close> of \<open>build_query\<close> when it
  reaches the \<open>return\<close>. The parameter \<open>filetypes\<close> may be \<open>None\<close> (the default of
  \<open>search_books\<close>); \<open>None\<close> and the empty list are both falsy, as is the empty site.
\<close>

definition build_query_text :: "string list \<Rightarrow> string \<Rightarrow> string list option \<Rightarrow> string" where
  "build_query_text keywords site filetypes =
     (let keyword_query = join '' '' (map (\<lambda>keyword. dquote @ keyword @ dquote) keywords);
          query = [];
          query = (if site \<noteq> [] then query @ ''site:'' @ site @ '' '' else query);
          query = query @ keyword_query;
          query = (case filetypes of
                     None \<Rightarrow> query
                   | Some fts \<Rightarrow>
                       if fts \<noteq> [] then
                         query @ '' '' @ join '' OR '' (map (\<lambda>ft. ''filetype:'' @ ft) fts)
                       else query)
      in query)"

definition build_query :: "string list \<Rightarrow> string \<Rightarrow> string list option \<Rightarrow> string" where
  "build_query keywords site filetypes = quote (build_query_text keywords site filetypes)"

section \<open>Search executor\<close>

definition get_or_empty :: "string option \<Rightarrow> string" where
  "get_or_empty v = (case v of None \<Rightarrow> [] | Some x \<Rightarrow> x)"

definition to_result :: "item \<Rightarrow> result" where
  "to_result i =
     \<lparr>title = get_or_empty (item_title i), link = get_or_empty (item_link i),
      snippet = get_or_empty (item_snippet i), displayLink = get_or_empty (item_displayLink i),
      formattedUrl = get_or_empty (item_formattedUrl i)\<rparr>"

text \<open>The slice \<open>xs[:n]\<close>; a negative \<open>n\<close> counts from the end.\<close>

definition slice_to :: "'a list \<Rightarrow> int \<Rightarrow> 'a list" where
  "slice_to xs n = (if 0 \<le> n then take (nat n) xs else take (length xs - nat (- n)) xs)"

definition search_params :: "searcher \<Rightarrow> string \<Rightarrow> int \<Rightarrow> result list \<Rightarrow> int \<Rightarrow> request" where
  "search_params self query max_results results start_index =
     \<lparr>url = base_url self, key = api_key self, cx = search_engine_id self, q = query,
      start = start_index, num = min 10 (max_results - int (length results))\<rparr>"

text \<open>
  The \<open>while\<close> loop of \<open>_perform_search\<close> with its locals \<open>results\<close> and
  \<open>start_index\<close>, followed by the final \<open>return results[:max_results]\<close>. A \<open>break\<close>
  goes to that \<open>return\<close>; an exception leaves with \<open>Inl\<close>.
\<close>

function perform_loop ::
  "'w api \<Rightarrow> searcher \<Rightarrow> string \<Rightarrow> int \<Rightarrow> result list \<Rightarrow> int \<Rightarrow> 'w io
     \<Rightarrow> (error + result list) \<times> 'w io" where
  "perform_loop api self query max_results results start_index s =
     (if int (length results) < max_results \<and> start_index \<le> 91 then
        (case requests_get api (search_params self query max_results results start_index) s of
           (Failed, s1) \<Rightarrow> (Inl RequestException, s1)
         | (Response status_code data, s1) \<Rightarrow>
             if status_code \<noteq> 200 then
               (Inr (slice_to results max_results), print (ApiError status_code) s1)
             else
               (case data of
                  Malformed \<Rightarrow> (Inl JSONDecodeError, s1)
                | Json None \<Rightarrow> (Inr (slice_to results max_results), s1)
                | Json (Some items) \<Rightarrow>
                    perform_loop api self query max_results
                      (results @ map to_result items) (start_index + 10) s1))
      else (Inr (slice_to results max_results), s))"
  by pat_completeness auto
termination
  by (relation "measure (\<lambda>(api, self, query, max_results, results, start_index, s).
        nat (92 - start_index))") auto

declare perform_loop.simps [simp del]

definition perform_search ::
  "'w api \<Rightarrow> searcher \<Rightarrow> string \<Rightarrow> int \<Rightarrow> 'w io \<Rightarrow> (error + result list) \<times> 'w io" where
  "perform_search api self query max_results s =
     perform_loop api self query max_results [] 1 s"

section \<open>Aggregator\<close>

definition tag :: "string \<Rightarrow> string list \<Rightarrow> result \<Rightarrow> tagged_result" where
  "tag site keywords r =
     \<lparr>title = title r, link = link r, snippet = snippet r, displayLink = displayLink r,
      formattedUrl = formattedUrl r, source_site = site, search_keywords = keywords\<rparr>"

text \<open>
  The \<open>for site in sites\<close> loop of \<open>search_books\<close> with its local \<open>all_results\<close>. The
  \<open>try\<close> covers the search, the tagging and the pause; the handler prints and goes on.
\<close>

fun search_sites ::
  "'w api \<Rightarrow> searcher \<Rightarrow> string list \<Rightarrow> int \<Rightarrow> string list option \<Rightarrow> string list
     \<Rightarrow> tagged_result list \<Rightarrow> 'w io \<Rightarrow> tagged_result list \<times> 'w io" where
  "search_sites api self keywords max_results_per_site filetypes [] all_results s =
     (all_results, s)"
| "search_sites api self keywords max_results_per_site filetypes (site # sites) all_results s =
     (let s1 = print (Searching site) s;
          query = build_query keywords site filetypes
      in case perform_search api self query max_results_per_site s1 of
           (Inr results, s2) \<Rightarrow>
             search_sites api self keywords max_results_per_site filetypes sites
               (all_results @ map (tag site keywords) results) (sleep 1 s2)
         | (Inl e, s2) \<Rightarrow>
             search_sites api self keywords max_results_per_site filetypes sites
               all_results (print (SearchError site e) s2))"

text \<open>\<open>search_books\<close>: \<open>sites=None\<close> stands for the searcher's own site list.\<close>

definition search_books ::
  "'w api \<Rightarrow> searcher \<Rightarrow> string list \<Rightarrow> string list option \<Rightarrow> int \<Rightarrow> string list option
     \<Rightarrow> 'w io \<Rightarrow> tagged_result list \<times> 'w io" where
  "search_books api self keywords sites max_results_per_site filetypes s =
     search_sites api self keywords max_results_per_site filetypes
       (case sites of None \<Rightarrow> ebook_sites self | Some given \<Rightarrow> given) [] s"

section \<open>Exporter\<close>

definition columns :: "string list" where
  "columns = [''title'', ''link'', ''snippet'', ''displayLink'', ''formattedUrl'',
              ''source_site'', ''search_keywords'']"

definition to_row :: "tagged_result \<Rightarrow> cell list" where
  "to_row r = [Text (title r), Text (link r), Text (snippet r), Text (displayLink r),
               Text (formattedUrl r), Text (source_site r), Keywords (search_keywords r)]"

definition save_results :: "tagged_result list \<Rightarrow> string \<Rightarrow> 'w io \<Rightarrow> 'w io" where
  "save_results results filename s =
     (if results = [] then print NoResultsToSave s
      else print (ResultsSaved filename)
             (s\<lparr>saved := (saved s)(filename \<mapsto> \<lparr>header = columns, rows = map to_row results\<rparr>)\<rparr>))"

section \<open>Configuration loader\<close>

text \<open>
  \<open>env\<close> is the process environment once \<open>load_dotenv()\<close> has run; \<open>os.getenv\<close> of an
  unset name is \<open>None\<close>.
\<close>

definition load_and_clean_env_list :: "(string \<rightharpoonup> string) \<Rightarrow> string \<Rightarrow> string list" where
  "load_and_clean_env_list env env_var =
     (let values = split CHR '','' (case env env_var of None \<Rightarrow> [] | Some v \<Rightarrow> v)
      in map strip (filter (\<lambda>value. strip value \<noteq> []) values))"

text \<open>
  \<open>load_environment_variables\<close>. \<open>to_int\<close> is Python's \<open>int\<close> on a string, \<open>None\<close>
  where it raises; that exception is re-raised as a \<open>RuntimeError\<close>. The final check
  tests three values for \<open>None\<close>: the two results of \<open>os.getenv\<close> and the list
  \<open>keywords\<close>, which is a list whatever the environment holds.
\<close>

definition load_environment_variables ::
  "(string \<Rightarrow> int option) \<Rightarrow> (string \<rightharpoonup> string)
     \<Rightarrow> error + string \<times> string \<times> string list \<times> string list \<times> int" where
  "load_environment_variables to_int env =
     (let the_api_key = env ''API_KEY'';
          the_search_engine_id = env ''SEARCH_ENGINE_ID'';
          keywords = load_and_clean_env_list env ''KEYWORDS'';
          filetypes = load_and_clean_env_list env ''FILETYPES''
      in case (case env ''MAX_RESULTS_PER_SITE'' of None \<Rightarrow> Some 10 | Some v \<Rightarrow> to_int v) of
           None \<Rightarrow> Inl RuntimeError
         | Some max_results_per_site \<Rightarrow>
             (case (the_api_key, the_search_engine_id, Some keywords) of
                (Some k, Some e, Some kws) \<Rightarrow> Inr (k, e, kws, filetypes, max_results_per_site)
              | _ \<Rightarrow> Inl ValueError))"

section \<open>Pages fetched so far\<close>

text \<open>
  \<open>pages api self query max_results c c'\<close>: from the loop state \<open>c\<close> (the locals
  \<open>results\<close> and \<open>start_index\<close>, and the effects so far) the loop of
  \<open>_perform_search\<close> reaches the loop state \<open>c'\<close> through iterations that each
  received a 200 response with items.
\<close>

inductive pages ::
  "'w api \<Rightarrow> searcher \<Rightarrow> string \<Rightarrow> int \<Rightarrow> result list \<times> int \<times> 'w io
     \<Rightarrow> result list \<times> int \<times> 'w io \<Rightarrow> bool"
  for api :: "'w api" and self :: searcher and query :: string and max_results :: int
  where
    here: "pages api self query max_results c c"
  | page: "pages api self query max_results c (results, start_index, s) \<Longrightarrow>
           int (length results) < max_results \<Longrightarrow> start_index \<le> 91 \<Longrightarrow>
           requests_get api (search_params self query max_results results start_index) s
             = (Response 200 (Json (Some items)), s1) \<Longrightarrow>
           pages api self query max_results c
             (results @ map to_result items, start_index + 10, s1)"

text \<open>A search service that neither fails nor answers 200 with a body that is not JSON.\<close>

definition answers :: "'w api \<Rightarrow> bool" where
  "answers api \<longleftrightarrow>
     (\<forall>params w. fst (api params w) \<noteq> Failed \<and> fst (api params w) \<noteq> Response 200 Malformed)"

section \<open>Example runs\<close>

text \<open>A search service that plays back a list of replies, then has no more items.\<close>

definition scripted :: "reply list api" where
  "scripted params w =
     (case w of [] \<Rightarrow> (Response 200 (Json None), []) | r # rs \<Rightarrow> (r, rs))"

text \<open>A search service that sends ten items whatever \<open>num\<close> asks for.\<close>

definition book :: "string \<Rightarrow> item" where
  "book t =
     \<lparr>item_title = Some t, item_link = Some (''https://books.example/'' @ t),
      item_snippet = None, item_displayLink = None, item_formattedUrl = None\<rparr>"

definition generous :: "nat api" where
  "generous params w = (Response 200 (Json (Some (replicate 10 (book ''x'')))), Suc w)"

definition reader :: searcher where
  "reader =
     \<lparr>api_key = ''k'', search_engine_id = ''e'',
      base_url = ''https://www.googleapis.com/customsearch/v1'',
      ebook_sites_file = ''ebook_sites.txt'', ebook_sites = [''a.example'', ''b.example'']\<rparr>"

definition fresh :: "'w \<Rightarrow> 'w io" where
  "fresh w = \<lparr>world = w, sent = [], console = [], slept = 0, saved = Map.empty\<rparr>"

text \<open>
  A site file with a blank line, padding, a duplicate, two lines that are no hostnames,
  and the three line endings \<open>\n\<close>, \<open>\r\n\<close> and \<open>\r\<close>.
\<close>

definition sites_text :: string where
  "sites_text =
     ''example.com'' @ [newline] @ [newline] @ ''  libgen.is '' @ [carriage_return, newline]
     @ ''not a host'' @ [carriage_return] @ ''example.com'' @ [carriage_return]
     @ ''localhost''"

section \<open>The query of the specification's example\<close>

text \<open>
  C1. For the keywords Nietzsche and Gay, the site example.com and the file types pdf and
  epub, the query built before percent-encoding is
  \<^verbatim>\<open>site:example.com "Nietzsche" "Gay" filetype:pdf OR filetype:epub\<close>.
\<close>

theorem build_query_text_example:
  \<open>build_query_text [''Nietzsche'', ''Gay''] ''example.com'' (Some [''pdf'', ''epub''])
     = ''site:example.com "Nietzsche" "Gay" filetype:pdf OR filetype:epub''\<close>
  by (simp add: build_query_text_def dquote_def)

lemma build_query_example:
  \<open>build_query [''Nietzsche'', ''Gay''] ''example.com'' (Some [''pdf'', ''epub''])
     = ''site%3Aexample.com%20%22Nietzsche%22%20%22Gay%22%20filetype%3Apdf%20OR%20filetype%3Aepub''\<close>
  by (simp add: build_query_def build_query_text_def dquote_def quote_def quote_char_def
      always_safe_def is_lower_def is_upper_def is_digit_def percent_def hexdigit_def)

section \<open>Properties of the site list loader\<close>

text \<open>The matcher decides membership in the language of the pattern.\<close>

lemma nullable_lang: "nullable r \<longleftrightarrow> [] \<in> lang r"
proof (induction r)
  case (Rep n r)
  show ?case
  proof
    assume "nullable (Rep n r)"
    then consider "n = 0" | "[] \<in> lang r" using Rep by auto
    then show "[] \<in> lang (Rep n r)"
    proof cases
      case 1
      then have "[] = concat [] \<and> n \<le> length ([] :: string list) \<and> set [] \<subseteq> lang r" by simp
      then show ?thesis unfolding lang.simps by blast
    next
      case 2
      then have "[] = concat (replicate n []) \<and> n \<le> length (replicate n ([] :: string))
          \<and> set (replicate n []) \<subseteq> lang r" by auto
      then show ?thesis unfolding lang.simps by blast
    qed
  next
    assume "[] \<in> lang (Rep n r)"
    then obtain ws where ws: "concat ws = []" "n \<le> length ws" "set ws \<subseteq> lang r" by auto
    show "nullable (Rep n r)"
    proof (cases "n = 0")
      case False
      with ws(2) obtain w ws' where "ws = w # ws'" by (cases ws) auto
      with ws(1,3) have "[] \<in> lang r" by auto
      with Rep show ?thesis by simp
    qed simp
  qed
qed auto

lemma concat_Cons_split:
  "concat ws = c # w \<Longrightarrow> set ws \<subseteq> L \<Longrightarrow>
   \<exists>u ws'. c # u \<in> L \<and> set ws' \<subseteq> L \<and> w = u @ concat ws' \<and> Suc (length ws') = length ws"
proof (induction ws)
  case Nil
  then show ?case by simp
next
  case (Cons x xs)
  show ?case
  proof (cases x)
    case Nil
    with Cons.prems have "concat xs = c # w" "set xs \<subseteq> L" "[] \<in> L" by simp_all
    with Cons.IH obtain u ws' where
      "c # u \<in> L" "set ws' \<subseteq> L" "w = u @ concat ws'" "Suc (length ws') = length xs"
      by blast
    with \<open>[] \<in> L\<close> show ?thesis
      by (intro exI[of _ u] exI[of _ "[] # ws'"]) simp
  next
    case (Cons d u)
    with Cons.prems show ?thesis
      by (intro exI[of _ u] exI[of _ xs]) auto
  qed
qed

lemma deriv_lang: "lang (deriv c r) = {w. c # w \<in> lang r}"
proof (induction r)
  case (Seq r1 r2)
  show ?case
  proof (intro set_eqI iffI)
    fix w assume "w \<in> lang (deriv c (Seq r1 r2))"
    then consider u v where "w = u @ v" "c # u \<in> lang r1" "v \<in> lang r2"
      | "nullable r1" "c # w \<in> lang r2"
      using Seq by (auto split: if_splits)
    then show "w \<in> {w. c # w \<in> lang (Seq r1 r2)}"
    proof cases
      case 1
      then have "c # w = (c # u) @ v" by simp
      with 1 show ?thesis unfolding lang.simps by blast
    next
      case 2
      then have "[] \<in> lang r1" "c # w = [] @ (c # w)" by (simp_all add: nullable_lang)
      with 2 show ?thesis unfolding lang.simps by blast
    qed
  next
    fix w assume "w \<in> {w. c # w \<in> lang (Seq r1 r2)}"
    then obtain u v where uv: "c # w = u @ v" "u \<in> lang r1" "v \<in> lang r2" by auto
    show "w \<in> lang (deriv c (Seq r1 r2))"
    proof (cases u)
      case Nil
      with uv have "nullable r1" "w \<in> lang (deriv c r2)" using Seq by (simp_all add: nullable_lang)
      then show ?thesis by simp
    next
      case (Cons d u')
      with uv have "u' \<in> lang (deriv c r1)" "w = u' @ v" using Seq by simp_all
      with uv(3) show ?thesis by auto
    qed
  qed
next
  case (Rep n r)
  show ?case
  proof (intro set_eqI iffI)
    fix w assume "w \<in> lang (deriv c (Rep n r))"
    then obtain u ws where w: "w = u @ concat ws" "c # u \<in> lang r" "n - 1 \<le> length ws" "set ws \<subseteq> lang r"
      using Rep by auto
    then have "c # w = concat ((c # u) # ws) \<and> n \<le> length ((c # u) # ws) \<and> set ((c # u) # ws) \<subseteq> lang r"
      by auto
    then show "w \<in> {w. c # w \<in> lang (Rep n r)}" unfolding lang.simps by blast
  next
    fix w assume "w \<in> {w. c # w \<in> lang (Rep n r)}"
    then obtain ws where ws: "concat ws = c # w" "n \<le> length ws" "set ws \<subseteq> lang r" by auto
    from concat_Cons_split[OF ws(1,3)] obtain u ws' where
      u: "c # u \<in> lang r" "set ws' \<subseteq> lang r" "w = u @ concat ws'" "Suc (length ws') = length ws"
      by blast
    with ws(2) have "n - 1 \<le> length ws'" by simp
    with u have "u \<in> lang (deriv c r)" "concat ws' \<in> lang (Rep (n - 1) r)" using Rep by auto
    with u(3) show "w \<in> lang (deriv c (Rep n r))" by auto
  qed
qed auto

lemma fullmatch_lang: "fullmatch r s \<longleftrightarrow> s \<in> lang r"
  by (induction s arbitrary: r) (simp_all add: nullable_lang deriv_lang)

lemma lang_Rep_Class: "lang (Rep n (Class p)) = {w. n \<le> length w \<and> (\<forall>c\<in>set w. p c)}"
proof (intro set_eqI iffI)
  fix w assume "w \<in> lang (Rep n (Class p))"
  then obtain ws where ws: "w = concat ws" "n \<le> length ws" "\<forall>x\<in>set ws. \<exists>c. x = [c] \<and> p c"
    by auto
  from ws(3) have "length (concat ws) = length ws \<and> (\<forall>c\<in>set (concat ws). p c)"
    by (induction ws) auto
  with ws show "w \<in> {w. n \<le> length w \<and> (\<forall>c\<in>set w. p c)}" by simp
next
  fix w assume "w \<in> {w. n \<le> length w \<and> (\<forall>c\<in>set w. p c)}"
  then have "w = concat (map (\<lambda>c. [c]) w) \<and> n \<le> length (map (\<lambda>c. [c]) w)
      \<and> set (map (\<lambda>c. [c]) w) \<subseteq> lang (Class p)"
    by (auto simp: concat_map_singleton)
  then show "w \<in> lang (Rep n (Class p))" unfolding lang.simps(6) by blast
qed

lemma lang_url_pattern: "s \<in> lang url_pattern \<longleftrightarrow> hostname s"
proof
  assume "s \<in> lang url_pattern"
  then obtain u v where s: "s = u @ v" and u: "u \<in> lang (Rep 1 (Class host_char))"
    and v: "v \<in> lang (Seq (Class (\<lambda>c. c = CHR ''.'')) (Rep 2 (Class letter)))"
    unfolding url_pattern_def lang.simps(4) by blast
  from v obtain d suf where v': "v = d @ suf" "d \<in> lang (Class (\<lambda>c. c = CHR ''.''))"
    "suf \<in> lang (Rep 2 (Class letter))"
    unfolding lang.simps(4) by blast
  from v'(2) have d: "d = ''.''" by simp
  from u have "u \<noteq> []" "\<forall>c\<in>set u. host_char c" unfolding lang_Rep_Class by auto
  moreover from v'(3) have "2 \<le> length suf" "\<forall>c\<in>set suf. letter c" unfolding lang_Rep_Class by auto
  ultimately show "hostname s" unfolding hostname_def using s v'(1) d by blast
next
  assume "hostname s"
  then obtain pre suf where h: "s = pre @ ''.'' @ suf" "pre \<noteq> []" "\<forall>c\<in>set pre. host_char c"
    "2 \<le> length suf" "\<forall>c\<in>set suf. letter c"
    unfolding hostname_def by blast
  from h(2,3) have "pre \<in> lang (Rep 1 (Class host_char))"
    unfolding lang_Rep_Class by (cases pre) auto
  moreover from h(4,5) have "suf \<in> lang (Rep 2 (Class letter))"
    unfolding lang_Rep_Class by simp
  then have "''.'' @ suf \<in> lang (Seq (Class (\<lambda>c. c = CHR ''.'')) (Rep 2 (Class letter)))"
    unfolding lang.simps(4) lang.simps(3) by blast
  ultimately show "s \<in> lang url_pattern"
    unfolding url_pattern_def lang.simps(4)[of "Rep 1 (Class host_char)"] using h(1) by blast
qed

lemma strip_last: "strip s \<noteq> [] \<Longrightarrow> \<not> isspace (last (strip s))"
proof -
  assume ne: "strip s \<noteq> []"
  let ?t = "dropWhile isspace (rev (dropWhile isspace s))"
  from ne have t: "?t \<noteq> []" by (simp add: strip_def)
  then have "\<not> isspace (hd ?t)" by (rule hd_dropWhile)
  moreover have "last (strip s) = hd ?t"
    using t unfolding strip_def by (simp add: last_rev)
  ultimately show ?thesis by simp
qed

lemma isspace_newline: "isspace newline"
  by (simp add: isspace_def newline_def)

lemma match_anchored_strip: "match_anchored url_pattern (strip l) \<longleftrightarrow> hostname (strip l)"
proof -
  have "\<not> (strip l \<noteq> [] \<and> last (strip l) = newline)"
    using strip_last[of l] isspace_newline by auto
  then show ?thesis
    unfolding match_anchored_def by (auto simp: fullmatch_lang lang_url_pattern)
qed

lemma hostname_not_blank: "hostname s \<Longrightarrow> s \<noteq> []"
  by (auto simp: hostname_def)

lemma hostname_fullmatch: "hostname s \<longleftrightarrow> fullmatch url_pattern s"
  by (simp add: fullmatch_lang lang_url_pattern)

text \<open>The translated text has no carriage return, and a text without one is unchanged.\<close>

lemma universal_newlines_no_cr: "carriage_return \<notin> set (universal_newlines raw)"
  by (induction raw rule: universal_newlines.induct)
     (auto simp: newline_def carriage_return_def)

lemma universal_newlines_id:
  "carriage_return \<notin> set raw \<Longrightarrow> universal_newlines raw = raw"
  by (induction raw rule: universal_newlines.induct) auto

text \<open>The lines are the text cut into pieces, none empty, a newline only at the end.\<close>

lemma concat_lines_keepends: "concat (lines_keepends contents) = contents"
  by (induction contents) (auto split: list.splits)

lemma concat_file_lines: "concat (file_lines raw) = universal_newlines raw"
  by (simp add: file_lines_def concat_lines_keepends)

lemma split_not_Nil: "split sep s \<noteq> []"
  by (induction s) auto

text \<open>
  The lines with their newlines are the pieces between the newlines, but for an empty
  last piece.
\<close>

lemma lines_keepends_split:
  "lines_keepends t
     = map (\<lambda>p. p @ [newline]) (butlast (split newline t))
       @ (if last (split newline t) = [] then [] else [last (split newline t)])"
proof (induction t)
  case Nil
  then show ?case by simp
next
  case (Cons c cs)
  obtain h sp where sp: "split newline cs = h # sp"
    using split_not_Nil[of newline cs] by (cases "split newline cs") auto
  show ?case
  proof (cases "c = newline")
    case True
    with Cons sp show ?thesis by simp
  next
    case False
    show ?thesis
    proof (cases sp)
      case Nil
      with Cons sp False show ?thesis by (cases "h = []") simp_all
    next
      case (Cons h' rest)
      with Cons.IH sp False show ?thesis by simp
    qed
  qed
qed

lemma strip_keepend: "strip (p @ [newline]) = strip p"
proof (cases "\<forall>c\<in>set p. isspace c")
  case True
  then have "\<forall>c\<in>set (p @ [newline]). isspace c"
    using isspace_newline by simp
  then have "dropWhile isspace (p @ [newline]) = []"
    by (subst dropWhile_eq_Nil_conv)
  moreover from True have "dropWhile isspace p = []"
    by (subst dropWhile_eq_Nil_conv)
  ultimately show ?thesis unfolding strip_def by (simp only:)
next
  case False
  then have "dropWhile isspace (p @ [newline]) = dropWhile isspace p @ [newline]"
    by (auto simp: dropWhile_append1)
  then show ?thesis using isspace_newline by (simp add: strip_def)
qed

lemma strip_Nil: "strip [] = []"
  by (simp add: strip_def)

lemma hostnames_of_lines:
  "filter hostname (map strip (lines_keepends t))
     = filter hostname (map strip (split newline t))"
proof -
  let ?sp = "split newline t"
  have sp: "?sp = butlast ?sp @ [last ?sp]"
    using split_not_Nil[of newline t] by simp
  have "filter hostname (map strip (lines_keepends t))
          = filter hostname (map strip (butlast ?sp))
            @ (if last ?sp = [] then [] else filter hostname [strip (last ?sp)])"
    by (subst lines_keepends_split) (simp add: strip_keepend comp_def)
  also have "\<dots> = filter hostname (map strip (butlast ?sp)) @ filter hostname [strip (last ?sp)]"
    using hostname_not_blank[of "[]"] by (auto simp: strip_Nil)
  also have "\<dots> = filter hostname (map strip (butlast ?sp @ [last ?sp]))"
    by simp
  finally show ?thesis using sp by simp
qed

lemmas match_simps = match_anchored_def url_pattern_def host_char_def letter_def
  is_lower_def is_upper_def is_digit_def strip_def isspace_def newline_def carriage_return_def
  file_lines_def

text \<open>
  C7, as the specification words it, fails: the lines are stripped before they are tested
  and it is the stripped text that is loaded. A file whose only line is a padded host name
  has no line that is a hostname, yet the loader returns the host name without the
  padding instead of failing.
\<close>

theorem padded_line_loaded_counterexample:
  "file_lines ''  libgen.is '' = [''  libgen.is '']
   \<and> \<not> hostname ''  libgen.is ''
   \<and> fst (get_ebook_sites [''ebook_sites.txt'' \<mapsto> ''  libgen.is ''] ''ebook_sites.txt''
            (fresh ()))
       = Inr [''libgen.is'']"
  by (simp add: hostname_fullmatch get_ebook_sites_def match_simps Let_def)

text \<open>
  C7, amended. The loader fails with \<open>FileNotFoundError\<close> when the file is absent.
  Otherwise the lines of the file are the pieces between its line ends (\<open>\n\<close>,
  \<open>\r\n\<close> or \<open>\r\<close>); the list returned is those pieces, stripped of surrounding
  whitespace, that are then hostnames in the specification's sense (a blank line is none),
  in file order and with duplicates kept, and the loader fails with \<open>ValueError\<close> when
  there is no such piece.
\<close>

theorem get_ebook_sites_hostnames:
  "(fs sites_file = None \<longrightarrow> get_ebook_sites fs sites_file s = (Inl FileNotFoundError, s))
   \<and> (\<forall>contents. fs sites_file = Some contents \<longrightarrow>
        (let kept = filter hostname
                      (map strip (split newline (universal_newlines contents)))
         in fst (get_ebook_sites fs sites_file s)
              = (if kept = [] then Inl ValueError else Inr kept)))"
proof -
  have "map strip (filter (\<lambda>line. match_anchored url_pattern (strip line)) ls)
          = filter hostname (map strip ls)" for ls
    by (induction ls) (simp_all add: match_anchored_strip)
  then show ?thesis
    by (simp add: get_ebook_sites_def file_lines_def Let_def hostnames_of_lines)
qed

theorem get_ebook_sites_hostnames_witness:
  "fst (get_ebook_sites [''ebook_sites.txt'' \<mapsto> sites_text] ''ebook_sites.txt'' (fresh ()))
     = Inr [''example.com'', ''libgen.is'', ''example.com'']
   \<and> filter hostname (map strip (split newline (universal_newlines sites_text)))
     = [''example.com'', ''libgen.is'', ''example.com'']
   \<and> fst (get_ebook_sites [''ebook_sites.txt'' \<mapsto> ''localhost''] ''ebook_sites.txt'' (fresh ()))
     = Inl ValueError
   \<and> fst (get_ebook_sites Map.empty ''ebook_sites.txt'' (fresh ())) = Inl FileNotFoundError"
proof -
  let ?kept = "filter hostname (map strip (split newline (universal_newlines sites_text)))"
  have loaded: "fst (get_ebook_sites [''ebook_sites.txt'' \<mapsto> sites_text] ''ebook_sites.txt''
                      (fresh ()))
                  = Inr [''example.com'', ''libgen.is'', ''example.com'']"
    by (simp add: get_ebook_sites_def sites_text_def match_simps Let_def)
  have "fst (get_ebook_sites [''ebook_sites.txt'' \<mapsto> sites_text] ''ebook_sites.txt'' (fresh ()))
          = (if ?kept = [] then Inl ValueError else Inr ?kept)"
    using get_ebook_sites_hostnames[of "[''ebook_sites.txt'' \<mapsto> sites_text]"
        "''ebook_sites.txt''" "fresh ()"]
    by (simp add: Let_def del: split.simps)
  with loaded have kept: "?kept = [''example.com'', ''libgen.is'', ''example.com'']"
    by (cases "?kept = []") (simp_all del: split.simps)
  have none: "fst (get_ebook_sites [''ebook_sites.txt'' \<mapsto> ''localhost''] ''ebook_sites.txt''
                    (fresh ()))
                = Inl ValueError"
    by (simp add: get_ebook_sites_def match_simps Let_def)
  have absent: "fst (get_ebook_sites Map.empty ''ebook_sites.txt'' (fresh ())) = Inl FileNotFoundError"
    using get_ebook_sites_hostnames[of Map.empty "''ebook_sites.txt''" "fresh ()"] by simp
  from loaded kept none absent show ?thesis by (simp only: simp_thms)
qed

text \<open>A lone carriage return ends a line.\<close>

lemma carriage_return_ends_line:
  "fst (get_ebook_sites
          [''ebook_sites.txt'' \<mapsto> ''a.com'' @ [carriage_return] @ ''b.org'' @ [carriage_return]]
          ''ebook_sites.txt'' (fresh ()))
     = Inr [''a.com'', ''b.org'']"
  by (simp add: get_ebook_sites_def match_simps Let_def)

section \<open>The loop of the search executor\<close>

lemma slice_to_length: "0 \<le> n \<Longrightarrow> int (length (slice_to xs n)) \<le> n"
  by (simp add: slice_to_def)

lemma slice_to_short: "int (length xs) \<le> n \<Longrightarrow> slice_to xs n = xs"
  by (simp add: slice_to_def)

lemma sent_requests_get:
  "requests_get api params s = (r, s1) \<Longrightarrow> sent s1 = sent s @ [params]"
  by (auto simp: requests_get_def split: prod.splits)

lemma perform_loop_done:
  "\<not> (int (length results) < max_results \<and> start_index \<le> 91) \<Longrightarrow>
   perform_loop api self query max_results results start_index s
     = (Inr (slice_to results max_results), s)"
  by (subst perform_loop.simps) auto

lemma perform_loop_failed:
  "int (length results) < max_results \<Longrightarrow> start_index \<le> 91 \<Longrightarrow>
   requests_get api (search_params self query max_results results start_index) s = (Failed, s1) \<Longrightarrow>
   perform_loop api self query max_results results start_index s = (Inl RequestException, s1)"
  by (subst perform_loop.simps) simp

lemma perform_loop_status:
  "int (length results) < max_results \<Longrightarrow> start_index \<le> 91 \<Longrightarrow>
   requests_get api (search_params self query max_results results start_index) s
     = (Response status_code data, s1) \<Longrightarrow>
   status_code \<noteq> 200 \<Longrightarrow>
   perform_loop api self query max_results results start_index s
     = (Inr (slice_to results max_results), print (ApiError status_code) s1)"
  by (subst perform_loop.simps) simp

lemma perform_loop_malformed:
  "int (length results) < max_results \<Longrightarrow> start_index \<le> 91 \<Longrightarrow>
   requests_get api (search_params self query max_results results start_index) s
     = (Response 200 Malformed, s1) \<Longrightarrow>
   perform_loop api self query max_results results start_index s = (Inl JSONDecodeError, s1)"
  by (subst perform_loop.simps) simp

lemma perform_loop_no_items:
  "int (length results) < max_results \<Longrightarrow> start_index \<le> 91 \<Longrightarrow>
   requests_get api (search_params self query max_results results start_index) s
     = (Response 200 (Json None), s1) \<Longrightarrow>
   perform_loop api self query max_results results start_index s
     = (Inr (slice_to results max_results), s1)"
  by (subst perform_loop.simps) simp

lemma perform_loop_page:
  "int (length results) < max_results \<Longrightarrow> start_index \<le> 91 \<Longrightarrow>
   requests_get api (search_params self query max_results results start_index) s
     = (Response 200 (Json (Some items)), s1) \<Longrightarrow>
   perform_loop api self query max_results results start_index s
     = perform_loop api self query max_results (results @ map to_result items)
         (start_index + 10) s1"
  by (subst perform_loop.simps) simp

text \<open>One iteration, by cases on what the service answers.\<close>

lemma perform_loop_cases:
  assumes "int (length results) < max_results" "start_index \<le> 91"
  obtains
    (failed) s1 where
      "requests_get api (search_params self query max_results results start_index) s = (Failed, s1)"
  | (status) status_code data s1 where
      "requests_get api (search_params self query max_results results start_index) s
         = (Response status_code data, s1)" "status_code \<noteq> 200"
  | (malformed) s1 where
      "requests_get api (search_params self query max_results results start_index) s
         = (Response 200 Malformed, s1)"
  | (no_items) s1 where
      "requests_get api (search_params self query max_results results start_index) s
         = (Response 200 (Json None), s1)"
  | (page) items s1 where
      "requests_get api (search_params self query max_results results start_index) s
         = (Response 200 (Json (Some items)), s1)"
proof -
  obtain r s1 where get: "requests_get api (search_params self query max_results results start_index) s = (r, s1)"
    by (cases "requests_get api (search_params self query max_results results start_index) s")
  show thesis
  proof (cases r)
    case Failed
    with get failed show ?thesis by simp
  next
    case (Response status_code data)
    show ?thesis
    proof (cases "status_code = 200")
      case False
      with get Response status show ?thesis by simp
    next
      case True
      show ?thesis
      proof (cases data)
        case Malformed
        with get Response True malformed show ?thesis by simp
      next
        case (Json items_opt)
        with get Response True no_items page show ?thesis
          by (cases items_opt) simp_all
      qed
    qed
  qed
qed

text \<open>Induction over the iterations of the loop.\<close>

lemma perform_loop_induct [case_names exit failed status malformed no_items page]:
  fixes api :: "'w api"
  assumes exit: "\<And>results start_index s.
      \<not> (int (length results) < max_results \<and> start_index \<le> 91) \<Longrightarrow> P results start_index s"
    and failed: "\<And>results start_index s s1.
      int (length results) < max_results \<Longrightarrow> start_index \<le> 91 \<Longrightarrow>
      requests_get api (search_params self query max_results results start_index) s = (Failed, s1) \<Longrightarrow>
      P results start_index s"
    and status: "\<And>results start_index s status_code data s1.
      int (length results) < max_results \<Longrightarrow> start_index \<le> 91 \<Longrightarrow>
      requests_get api (search_params self query max_results results start_index) s
        = (Response status_code data, s1) \<Longrightarrow>
      status_code \<noteq> 200 \<Longrightarrow> P results start_index s"
    and malformed: "\<And>results start_index s s1.
      int (length results) < max_results \<Longrightarrow> start_index \<le> 91 \<Longrightarrow>
      requests_get api (search_params self query max_results results start_index) s
        = (Response 200 Malformed, s1) \<Longrightarrow>
      P results start_index s"
    and no_items: "\<And>results start_index s s1.
      int (length results) < max_results \<Longrightarrow> start_index \<le> 91 \<Longrightarrow>
      requests_get api (search_params self query max_results results start_index) s
        = (Response 200 (Json None), s1) \<Longrightarrow>
      P results start_index s"
    and page: "\<And>results start_index s items s1.
      int (length results) < max_results \<Longrightarrow> start_index \<le> 91 \<Longrightarrow>
      requests_get api (search_params self query max_results results start_index) s
        = (Response 200 (Json (Some items)), s1) \<Longrightarrow>
      P (results @ map to_result items) (start_index + 10) s1 \<Longrightarrow>
      P results start_index s"
  shows "P results start_index s"
proof (induction "nat (92 - start_index)" arbitrary: results start_index s rule: less_induct)
  case (less start_index results s)
  show ?case
  proof (cases "int (length results) < max_results \<and> start_index \<le> 91")
    case False
    then show ?thesis by (rule exit)
  next
    case True
    then have c: "int (length results) < max_results" "start_index \<le> 91" by simp_all
    from c show ?thesis
    proof (cases rule: perform_loop_cases[where api = api and self = self and query = query and s = s])
      case (failed s1)
      show ?thesis by (rule assms(2)[OF c failed])
    next
      case (status status_code data s1)
      show ?thesis by (rule assms(3)[OF c status])
    next
      case (malformed s1)
      show ?thesis by (rule assms(4)[OF c malformed])
    next
      case (no_items s1)
      show ?thesis by (rule assms(5)[OF c no_items])
    next
      case (page items s1)
      have "P (results @ map to_result items) (start_index + 10) s1"
        using c(2) by (intro less) simp
      then show ?thesis by (rule assms(6)[OF c page])
    qed
  qed
qed

lemma perform_loop_bound:
  assumes "0 \<le> max_results"
  shows "perform_loop api self query max_results results start_index s = (Inr rs, s') \<Longrightarrow>
         int (length rs) \<le> max_results"
proof (induction results start_index s rule: perform_loop_induct[where api = api and self = self and query = query and max_results = max_results])
  case (exit results start_index s)
  with assms show ?case by (auto simp: perform_loop_done slice_to_length)
next
  case (failed results start_index s s1)
  from failed(4) show ?case unfolding perform_loop_failed[OF failed(1-3)] by simp
next
  case (status results start_index s status_code data s1)
  from status(5) assms show ?case
    unfolding perform_loop_status[OF status(1-4)] by (auto simp: slice_to_length)
next
  case (malformed results start_index s s1)
  from malformed(4) show ?case unfolding perform_loop_malformed[OF malformed(1-3)] by simp
next
  case (no_items results start_index s s1)
  from no_items(4) assms show ?case
    unfolding perform_loop_no_items[OF no_items(1-3)] by (auto simp: slice_to_length)
next
  case (page results start_index s items s1)
  from page(5) show ?case unfolding perform_loop_page[OF page(1-3)] by (rule page(4))
qed

text \<open>The requests of a run of the loop, in the order they are sent.\<close>

lemma perform_loop_sent:
  "\<exists>new. sent (snd (perform_loop api self query max_results results start_index s)) = sent s @ new
     \<and> map start new = map (\<lambda>i. start_index + 10 * int i) [0..<length new]
     \<and> (\<forall>r\<in>set new. start r \<le> 91 \<and> 1 \<le> num r \<and> num r \<le> 10)"
proof (induction results start_index s rule: perform_loop_induct[where api = api and self = self and query = query and max_results = max_results])
  case (exit results start_index s)
  then show ?case by (simp add: perform_loop_done)
next
  case (failed results start_index s s1)
  then show ?case
    by (intro exI[of _ "[search_params self query max_results results start_index]"])
       (simp add: perform_loop_failed[OF failed] sent_requests_get[OF failed(3)] search_params_def)
next
  case (status results start_index s status_code data s1)
  then show ?case
    by (intro exI[of _ "[search_params self query max_results results start_index]"])
       (simp add: perform_loop_status[OF status] sent_requests_get[OF status(3)] search_params_def print_def)
next
  case (malformed results start_index s s1)
  then show ?case
    by (intro exI[of _ "[search_params self query max_results results start_index]"])
       (simp add: perform_loop_malformed[OF malformed] sent_requests_get[OF malformed(3)] search_params_def)
next
  case (no_items results start_index s s1)
  then show ?case
    by (intro exI[of _ "[search_params self query max_results results start_index]"])
       (simp add: perform_loop_no_items[OF no_items] sent_requests_get[OF no_items(3)] search_params_def)
next
  case (page results start_index s items s1)
  let ?params = "search_params self query max_results results start_index"
  from page(4) obtain new where new:
    "sent (snd (perform_loop api self query max_results (results @ map to_result items) (start_index + 10) s1)) = sent s1 @ new"
    "map start new = map (\<lambda>i. start_index + 10 + 10 * int i) [0..<length new]"
    "\<forall>r\<in>set new. start r \<le> 91 \<and> 1 \<le> num r \<and> num r \<le> 10"
    by auto
  have ok: "start ?params = start_index" "1 \<le> num ?params" "num ?params \<le> 10"
    using page(1) by (simp_all add: search_params_def)
  have "map start (?params # new) = map (\<lambda>i. start_index + 10 * int i) [0..<length (?params # new)]"
    using new(2) ok(1) by (simp add: map_upt_Suc del: upt_Suc)
  then show ?case
    using new(1,3) ok page(2) sent_requests_get[OF page(3)]
    by (intro exI[of _ "?params # new"]) (simp add: perform_loop_page[OF page(1-3)])
qed

lemma perform_loop_returns:
  assumes "\<And>params w. fst (api params w) \<noteq> Failed \<and> fst (api params w) \<noteq> Response 200 Malformed"
  shows "\<exists>rs. fst (perform_loop api self query max_results results start_index s) = Inr rs"
proof (induction results start_index s rule: perform_loop_induct[where api = api and self = self and query = query and max_results = max_results])
  case (exit results start_index s)
  then show ?case by (simp add: perform_loop_done)
next
  case (failed results start_index s s1)
  with assms[of "search_params self query max_results results start_index" "world s"]
  show ?case by (auto simp: requests_get_def split: prod.splits)
next
  case (status results start_index s status_code data s1)
  show ?case unfolding perform_loop_status[OF status] by simp
next
  case (malformed results start_index s s1)
  with assms[of "search_params self query max_results results start_index" "world s"]
  show ?case by (auto simp: requests_get_def split: prod.splits)
next
  case (no_items results start_index s s1)
  show ?case unfolding perform_loop_no_items[OF no_items] by simp
next
  case (page results start_index s items s1)
  show ?case unfolding perform_loop_page[OF page(1-3)] by (rule page(4))
qed

lemmas run_simps = perform_search_def perform_loop.simps requests_get_def search_params_def
  scripted_def generous_def print_def sleep_def slice_to_def fresh_def reader_def

section \<open>Properties of the search executor\<close>

text \<open>
  C10. With \<open>max_results\<close> zero or negative the loop is not entered: the search sends
  no request, changes nothing else outside, and returns the empty list.
\<close>

theorem perform_search_nonpositive:
  "max_results \<le> 0 \<Longrightarrow> perform_search api self query max_results s = (Inr [], s)"
  by (simp add: perform_search_def perform_loop_done slice_to_def)

theorem perform_search_nonpositive_witness:
  "perform_search scripted reader ''q'' (- 3) (fresh [Failed]) = (Inr [], fresh [Failed])
   \<and> sent (snd (perform_search scripted reader ''q'' 0 (fresh [Failed]))) = []"
  using perform_search_nonpositive[of "- 3" scripted reader "''q''" "fresh [Failed]"]
    perform_search_nonpositive[of 0 scripted reader "''q''" "fresh [Failed]"]
  by (simp add: fresh_def)

text \<open>
  C2. The requests a search sends are at most ten, their start offsets are 1, 11, 21 and so
  on in the order sent, no start offset exceeds 91 and no request asks for more than 10
  items.
\<close>

theorem perform_search_requests:
  "\<exists>new. sent (snd (perform_search api self query max_results s)) = sent s @ new
     \<and> length new \<le> 10
     \<and> map start new = map (\<lambda>i. 1 + 10 * int i) [0..<length new]
     \<and> (\<forall>r\<in>set new. start r \<le> 91 \<and> num r \<le> 10)"
proof -
  from perform_loop_sent[of api self query max_results "[]" 1 s]
  obtain new where new:
    "sent (snd (perform_search api self query max_results s)) = sent s @ new"
    "map start new = map (\<lambda>i. 1 + 10 * int i) [0..<length new]"
    "\<forall>r\<in>set new. start r \<le> 91 \<and> 1 \<le> num r \<and> num r \<le> 10"
    unfolding perform_search_def by blast
  have "length new \<le> 10"
  proof (cases new)
    case Nil
    then show ?thesis by simp
  next
    case (Cons r rs)
    then have "last new \<in> set new" and n: "length new - 1 < length new" by simp_all
    with new(3) have "start (last new) \<le> 91" by blast
    moreover have "start (last new) = map start new ! (length new - 1)"
      using Cons by (simp add: last_conv_nth)
    moreover have "map start new ! (length new - 1) = 1 + 10 * int (length new - 1)"
      unfolding new(2) using n by (simp del: upt_Suc)
    ultimately show ?thesis by linarith
  qed
  with new show ?thesis by blast
qed

theorem perform_search_requests_witness:
  "map (\<lambda>r. (start r, num r))
     (sent (snd (perform_search scripted reader ''q'' 12
        (fresh [Response 200 (Json (Some (replicate 10 (book ''x'')))),
                Response 200 (Json None)]))))
   = [(1, 10), (11, 2)]"
  using perform_search_requests[of scripted reader "''q''" 12
      "fresh [Response 200 (Json (Some (replicate 10 (book ''x'')))), Response 200 (Json None)]"]
  by (simp add: run_simps)

text \<open>
  C3. For a positive \<open>max_results\<close>, a search that returns a list returns at most
  \<open>max_results\<close> items, whatever the responses held; and it does return a list when
  the service never fails and never answers 200 with a body that is not JSON. The witness
  is a service that sends ten items when three are wanted.
\<close>

theorem perform_search_at_most_max_results:
  assumes "0 < max_results"
  shows "(\<forall>rs s'. perform_search api self query max_results s = (Inr rs, s')
            \<longrightarrow> int (length rs) \<le> max_results)
       \<and> (answers api \<longrightarrow> (\<exists>rs. fst (perform_search api self query max_results s) = Inr rs))"
proof (intro conjI allI impI)
  fix rs s'
  assume "perform_search api self query max_results s = (Inr rs, s')"
  with assms show "int (length rs) \<le> max_results"
    unfolding perform_search_def by (intro perform_loop_bound) simp_all
next
  assume "answers api"
  then show "\<exists>rs. fst (perform_search api self query max_results s) = Inr rs"
    unfolding perform_search_def answers_def by (intro perform_loop_returns) simp
qed

theorem perform_search_at_most_max_results_witness:
  "(0::int) < 3 \<and> answers generous
   \<and> fst (perform_search generous reader ''q'' 3 (fresh 0)) = Inr (replicate 3 (to_result (book ''x'')))
   \<and> length (replicate 3 (to_result (book ''x''))) = 3"
  using perform_search_at_most_max_results[of 3 generous reader "''q''" "fresh 0"]
  by (simp add: run_simps answers_def numeral_3_eq_3)

section \<open>Properties of the aggregator\<close>

lemma pages_loop:
  "pages api self query max_results c c' \<Longrightarrow>
   perform_loop api self query max_results (fst c) (fst (snd c)) (snd (snd c))
     = perform_loop api self query max_results (fst c') (fst (snd c')) (snd (snd c'))"
  by (induction rule: pages.induct) (simp_all add: perform_loop_page)

lemma pages_search:
  "pages api self query max_results ([], 1, s) (results, start_index, s1) \<Longrightarrow>
   perform_search api self query max_results s
     = perform_loop api self query max_results results start_index s1"
  using pages_loop[of api self query max_results "([], 1, s)" "(results, start_index, s1)"]
  by (simp add: perform_search_def)

text \<open>The two ways a search raises: the request fails, or a 200 body is not JSON.\<close>

lemma failed_request_raises:
  assumes "pages api self query max_results ([], 1, s) (results, start_index, s1)"
    and "int (length results) < max_results" and "start_index \<le> 91"
    and "requests_get api (search_params self query max_results results start_index) s1
         = (Failed, s2)"
  shows "perform_search api self query max_results s = (Inl RequestException, s2)"
  using pages_search[OF assms(1)] perform_loop_failed[OF assms(2-4)] by simp

lemma malformed_body_raises:
  assumes "pages api self query max_results ([], 1, s) (results, start_index, s1)"
    and "int (length results) < max_results" and "start_index \<le> 91"
    and "requests_get api (search_params self query max_results results start_index) s1
         = (Response 200 Malformed, s2)"
  shows "perform_search api self query max_results s = (Inl JSONDecodeError, s2)"
  using pages_search[OF assms(1)] perform_loop_malformed[OF assms(2-4)] by simp

lemma search_sites_returned:
  "perform_search api self (build_query keywords site filetypes) m (print (Searching site) s)
     = (Inr results, s2) \<Longrightarrow>
   search_sites api self keywords m filetypes (site # sites) all_results s
     = search_sites api self keywords m filetypes sites
         (all_results @ map (tag site keywords) results) (sleep 1 s2)"
  by simp

text \<open>
  C4, as the specification words it, fails: a site whose second page is answered with
  status 500 keeps the two results of its first page.
\<close>

theorem non_200_zero_results_counterexample:
  "fst (search_books scripted reader [''Kant''] (Some [''a.example'']) 20 None
         (fresh [Response 200 (Json (Some [book ''x'', book ''y''])), Response 500 (Json None)]))
     = [tag ''a.example'' [''Kant''] (to_result (book ''x'')),
        tag ''a.example'' [''Kant''] (to_result (book ''y''))]
   \<and> console (snd (search_books scripted reader [''Kant''] (Some [''a.example'']) 20 None
         (fresh [Response 200 (Json (Some [book ''x'', book ''y''])), Response 500 (Json None)])))
     = [Searching ''a.example'', ApiError 500]"
  by (simp add: search_books_def run_simps Let_def)

text \<open>
  C4, amended. When a page of a site's search is answered with a status other than 200,
  the status is printed, the site contributes exactly the results gathered from the pages
  fetched before it (there may be none, as when it is the first page or when the earlier
  pages held an empty list of items), the pause is taken and the run goes on with the next
  site.
\<close>

theorem non_200_keeps_earlier_pages:
  assumes "pages api self (build_query keywords site filetypes) m
             ([], 1, print (Searching site) s) (results, start_index, s1)"
    and "int (length results) < m" and "start_index \<le> 91"
    and "requests_get api
           (search_params self (build_query keywords site filetypes) m results start_index) s1
         = (Response status_code data, s2)"
    and "status_code \<noteq> 200"
  shows "search_sites api self keywords m filetypes (site # sites) all_results s
         = search_sites api self keywords m filetypes sites
             (all_results @ map (tag site keywords) results)
             (sleep 1 (print (ApiError status_code) s2))"
proof -
  have "perform_search api self (build_query keywords site filetypes) m (print (Searching site) s)
          = (Inr (slice_to results m), print (ApiError status_code) s2)"
    using pages_search[OF assms(1)] perform_loop_status[OF assms(2-5)] by simp
  moreover have "slice_to results m = results"
    using assms(2) by (simp add: slice_to_short)
  ultimately show ?thesis
    by (simp add: search_sites_returned)
qed

theorem non_200_keeps_earlier_pages_witness:
  "search_sites scripted reader [''Kant''] 20 None [''a.example''] []
     (fresh [Response 200 (Json (Some [book ''x'', book ''y''])), Response 500 (Json None)])
   = ([tag ''a.example'' [''Kant''] (to_result (book ''x'')),
       tag ''a.example'' [''Kant''] (to_result (book ''y''))],
      \<lparr>world = [],
       sent = [search_params reader (build_query [''Kant''] ''a.example'' None) 20 [] 1,
               search_params reader (build_query [''Kant''] ''a.example'' None) 20
                 [to_result (book ''x''), to_result (book ''y'')] 11],
       console = [Searching ''a.example'', ApiError 500], slept = 1, saved = Map.empty\<rparr>)"
proof -
  let ?q = "build_query [''Kant''] ''a.example'' None"
  let ?s = "fresh [Response 200 (Json (Some [book ''x'', book ''y''])), Response 500 (Json None)]"
  let ?s1 = "\<lparr>world = [Response 500 (Json None)], sent = [search_params reader ?q 20 [] 1],
              console = [Searching ''a.example''], slept = 0, saved = Map.empty\<rparr>"
  let ?s2 = "\<lparr>world = [], sent = [search_params reader ?q 20 [] 1,
               search_params reader ?q 20 [to_result (book ''x''), to_result (book ''y'')] 11],
              console = [Searching ''a.example''], slept = 0, saved = Map.empty\<rparr>"
  have "pages scripted reader ?q 20 ([], 1, print (Searching ''a.example'') ?s)
          ([] @ map to_result [book ''x'', book ''y''], 1 + 10, ?s1)"
    by (rule pages.page[OF pages.here]) (simp_all add: requests_get_def scripted_def fresh_def print_def)
  then have reach: "pages scripted reader ?q 20 ([], 1, print (Searching ''a.example'') ?s)
          ([to_result (book ''x''), to_result (book ''y'')], 11, ?s1)"
    by simp
  have get: "requests_get scripted
               (search_params reader ?q 20 [to_result (book ''x''), to_result (book ''y'')] 11) ?s1
             = (Response 500 (Json None), ?s2)"
    by (simp add: requests_get_def scripted_def)
  from non_200_keeps_earlier_pages[where sites = "[]" and all_results = "[]", OF reach _ _ get]
  show ?thesis by (simp add: print_def sleep_def)
qed

text \<open>A first page with an empty list of items, then status 500: nothing is contributed.\<close>

lemma non_200_after_empty_page:
  "fst (search_books scripted reader [''Kant''] (Some [''a.example'']) 20 None
         (fresh [Response 200 (Json (Some [])), Response 500 (Json None)])) = []
   \<and> map start (sent (snd (search_books scripted reader [''Kant''] (Some [''a.example'']) 20 None
         (fresh [Response 200 (Json (Some [])), Response 500 (Json None)])))) = [1, 11]
   \<and> console (snd (search_books scripted reader [''Kant''] (Some [''a.example'']) 20 None
         (fresh [Response 200 (Json (Some [])), Response 500 (Json None)])))
     = [Searching ''a.example'', ApiError 500]"
  by (simp add: search_books_def run_simps Let_def)

text \<open>
  C6. When the search of a site raises an exception, the handler prints it, nothing of that
  site is added to the aggregate (the pages already fetched are dropped with it), and the
  run goes on with the remaining sites. In the witness the first site fails on its second
  page and the second site is still searched.
\<close>

theorem raising_site_contributes_nothing:
  assumes "perform_search api self (build_query keywords site filetypes) m
             (print (Searching site) s) = (Inl e, s2)"
  shows "search_sites api self keywords m filetypes (site # sites) all_results s
         = search_sites api self keywords m filetypes sites all_results
             (print (SearchError site e) s2)"
  using assms by simp

theorem raising_site_contributes_nothing_witness:
  "search_sites scripted reader [''Kant''] 20 None [''a.example'', ''b.example''] []
     (fresh [Response 200 (Json (Some [book ''x'', book ''y''])), Failed,
             Response 200 (Json (Some [book ''z'']))])
   = ([tag ''b.example'' [''Kant''] (to_result (book ''z''))],
      \<lparr>world = [],
       sent = [search_params reader (build_query [''Kant''] ''a.example'' None) 20 [] 1,
               search_params reader (build_query [''Kant''] ''a.example'' None) 20
                 [to_result (book ''x''), to_result (book ''y'')] 11,
               search_params reader (build_query [''Kant''] ''b.example'' None) 20 [] 1,
               search_params reader (build_query [''Kant''] ''b.example'' None) 20
                 [to_result (book ''z'')] 11],
       console = [Searching ''a.example'', SearchError ''a.example'' RequestException,
                  Searching ''b.example''],
       slept = 1, saved = Map.empty\<rparr>)"
proof -
  let ?q = "build_query [''Kant''] ''a.example'' None"
  let ?s = "fresh [Response 200 (Json (Some [book ''x'', book ''y''])), Failed,
                   Response 200 (Json (Some [book ''z'']))]"
  let ?s2 = "\<lparr>world = [Response 200 (Json (Some [book ''z'']))],
              sent = [search_params reader ?q 20 [] 1,
                      search_params reader ?q 20 [to_result (book ''x''), to_result (book ''y'')] 11],
              console = [Searching ''a.example''], slept = 0, saved = Map.empty\<rparr>"
  have raised: "perform_search scripted reader ?q 20 (print (Searching ''a.example'') ?s)
                  = (Inl RequestException, ?s2)"
    by (simp add: perform_search_def perform_loop.simps requests_get_def scripted_def print_def
        fresh_def search_params_def)
  from raising_site_contributes_nothing[where sites = "[''b.example'']" and all_results = "[]",
      OF raised]
  show ?thesis
    by (simp add: perform_search_def perform_loop.simps requests_get_def scripted_def print_def
        sleep_def slice_to_def search_params_def Let_def)
qed

lemma search_sites_results:
  "\<exists>new. fst (search_sites api self keywords m filetypes sites all_results s) = all_results @ new
     \<and> (\<forall>r\<in>set new. search_keywords r = keywords \<and> source_site r \<in> set sites
           \<and> (\<exists>s1 results s2.
                 perform_search api self (build_query keywords (source_site r) filetypes) m s1
                   = (Inr results, s2)
                 \<and> r \<in> tag (source_site r) keywords ` set results))"
proof (induction sites arbitrary: all_results s)
  case Nil
  then show ?case by simp
next
  case (Cons site sites)
  let ?q = "build_query keywords site filetypes"
  obtain res s2 where ps: "perform_search api self ?q m (print (Searching site) s) = (res, s2)"
    by (cases "perform_search api self ?q m (print (Searching site) s)")
  show ?case
  proof (cases res)
    case (Inl e)
    with ps have step: "search_sites api self keywords m filetypes (site # sites) all_results s
        = search_sites api self keywords m filetypes sites all_results (print (SearchError site e) s2)"
      by simp
    from Cons.IH[of all_results "print (SearchError site e) s2"]
    obtain new where "fst (search_sites api self keywords m filetypes sites all_results (print (SearchError site e) s2)) = all_results @ new"
      and "\<forall>r\<in>set new. search_keywords r = keywords \<and> source_site r \<in> set sites
           \<and> (\<exists>s1 results s2.
                 perform_search api self (build_query keywords (source_site r) filetypes) m s1
                   = (Inr results, s2)
                 \<and> r \<in> tag (source_site r) keywords ` set results)"
      by blast
    then show ?thesis unfolding step by (intro exI[of _ new]) auto
  next
    case (Inr results)
    with ps have step: "search_sites api self keywords m filetypes (site # sites) all_results s
        = search_sites api self keywords m filetypes sites (all_results @ map (tag site keywords) results) (sleep 1 s2)"
      by simp
    from Cons.IH[of "all_results @ map (tag site keywords) results" "sleep 1 s2"]
    obtain new where new: "fst (search_sites api self keywords m filetypes sites (all_results @ map (tag site keywords) results) (sleep 1 s2)) = (all_results @ map (tag site keywords) results) @ new"
      and tags: "\<forall>r\<in>set new. search_keywords r = keywords \<and> source_site r \<in> set sites
           \<and> (\<exists>s1 results s2.
                 perform_search api self (build_query keywords (source_site r) filetypes) m s1
                   = (Inr results, s2)
                 \<and> r \<in> tag (source_site r) keywords ` set results)"
      by blast
    have here: "search_keywords r = keywords \<and> source_site r \<in> set (site # sites)
           \<and> (\<exists>s1 results s2.
                 perform_search api self (build_query keywords (source_site r) filetypes) m s1
                   = (Inr results, s2)
                 \<and> r \<in> tag (source_site r) keywords ` set results)"
      if "r \<in> set (map (tag site keywords) results)" for r
    proof -
      from that have site: "source_site r = site" and kw: "search_keywords r = keywords"
        by (auto simp: tag_def)
      from that ps Inr show ?thesis
        unfolding site kw by auto
    qed
    show ?thesis unfolding step
      using new tags here by (intro exI[of _ "map (tag site keywords) results @ new"]) auto
  qed
qed

text \<open>
  C9. Every result of the aggregate carries the keyword list of the call and a source site
  of the site list, and it is the tagged form of a result that the search for that very
  site returned.
\<close>

theorem search_books_results_tagged:
  "\<forall>r\<in>set (fst (search_books api self keywords sites m filetypes s)).
      search_keywords r = keywords
    \<and> source_site r \<in> set (case sites of None \<Rightarrow> ebook_sites self | Some given \<Rightarrow> given)
    \<and> (\<exists>s1 results s2.
          perform_search api self (build_query keywords (source_site r) filetypes) m s1
            = (Inr results, s2)
          \<and> r \<in> tag (source_site r) keywords ` set results)"
  using search_sites_results[of api self "keywords" m filetypes
      "case sites of None \<Rightarrow> ebook_sites self | Some given \<Rightarrow> given" "[]" s]
  unfolding search_books_def by auto

theorem search_books_results_tagged_witness:
  "map (\<lambda>r. (title r, source_site r, search_keywords r))
     (fst (search_books scripted reader [''Kant'', ''Hegel''] None 20 None
        (fresh [Response 200 (Json (Some [book ''x'', book ''y''])), Response 200 (Json None),
                Response 200 (Json (Some [book ''z'']))])))
   = [(''x'', ''a.example'', [''Kant'', ''Hegel'']), (''y'', ''a.example'', [''Kant'', ''Hegel'']),
      (''z'', ''b.example'', [''Kant'', ''Hegel''])]"
  using search_books_results_tagged[of scripted reader "[''Kant'', ''Hegel'']" None 20 None
      "fresh [Response 200 (Json (Some [book ''x'', book ''y''])), Response 200 (Json None),
              Response 200 (Json (Some [book ''z'']))]"]
  by (simp add: search_books_def run_simps tag_def to_result_def book_def get_or_empty_def Let_def)

section \<open>Properties of the exporter\<close>

text \<open>
  C8. With no result \<open>save_results\<close> writes no file and prints that there is nothing
  to save; with \<open>N \<ge> 1\<close> results the file it writes has the one header row and
  \<open>N\<close> data rows, the row of each result in order.
\<close>

theorem save_results_rows:
  "(results = [] \<longrightarrow>
      saved (save_results results filename s) = saved s
      \<and> console (save_results results filename s) = console s @ [NoResultsToSave])
   \<and> (results \<noteq> [] \<longrightarrow>
        (\<exists>c. saved (save_results results filename s) filename = Some c
           \<and> header c = columns
           \<and> length (rows c) = length results
           \<and> rows c = map to_row results))"
  by (simp add: save_results_def print_def)

theorem save_results_rows_witness:
  "saved (save_results [] ''out.csv'' (fresh ())) ''out.csv'' = None
   \<and> console (save_results [] ''out.csv'' (fresh ())) = [NoResultsToSave]
   \<and> map_option (\<lambda>c. (header c, length (rows c)))
        (saved (save_results
           [tag ''a.example'' [''Kant''] (to_result (book ''x'')),
            tag ''a.example'' [''Kant''] (to_result (book ''y''))] ''out.csv'' (fresh ())) ''out.csv'')
      = Some (columns, 2)"
  using save_results_rows[of "[]" "''out.csv''" "fresh ()"]
    save_results_rows[of "[tag ''a.example'' [''Kant''] (to_result (book ''x'')),
            tag ''a.example'' [''Kant''] (to_result (book ''y''))]" "''out.csv''" "fresh ()"]
  by (auto simp: fresh_def)

section \<open>Properties of the configuration loader\<close>

text \<open>
  C5. With the API key and the engine id set and \<open>KEYWORDS\<close> unset, the loader raises
  nothing: it returns the empty keyword list.
\<close>

theorem missing_keywords_not_raised:
  "load_environment_variables (\<lambda>v. None) [''API_KEY'' \<mapsto> ''k'', ''SEARCH_ENGINE_ID'' \<mapsto> ''e'']
     = Inr (''k'', ''e'', [], [], 10)"
  by (simp add: load_environment_variables_def load_and_clean_env_list_def strip_def)

lemma empty_keywords_not_raised:
  "load_environment_variables (\<lambda>v. None)
     [''API_KEY'' \<mapsto> ''k'', ''SEARCH_ENGINE_ID'' \<mapsto> ''e'', ''KEYWORDS'' \<mapsto> '' , '']
     = Inr (''k'', ''e'', [], [], 10)"
  by (simp add: load_environment_variables_def load_and_clean_env_list_def strip_def isspace_def)

lemma missing_credentials_raised:
  "env ''API_KEY'' = None \<or> env ''SEARCH_ENGINE_ID'' = None \<Longrightarrow>
   load_environment_variables to_int env = Inl ValueError
   \<or> load_environment_variables to_int env = Inl RuntimeError"
  by (auto simp: load_environment_variables_def Let_def split: option.splits)

end
